theory Spec2Isabelle
  imports Complex_Main "HOL-Library.Char_ord" "HOL-Library.List_Lexorder"
begin

chapter \<open>Definitions\<close>

section \<open>Common vocabulary\<close>

text \<open>
  Instants are JavaScript \<open>Date\<close> values, read as milliseconds since the epoch. The
  stores keep them in TEXT columns, as \<open>Date.toISOString()\<close> prints them, and SQLite
  compares and orders that text byte by byte. The records below keep the instant; where a
  statement compares or orders a column, the model compares the texts. A year outside
  0000 to 9999 is printed with a sign and six digits, and \<open>+\<close> and \<open>-\<close> come before the
  digits, so the order of the texts is not always the order of the instants.

  A \<open>Date\<close> holds an instant within 8.64e15 milliseconds of the epoch; arithmetic that
  leaves this range gives an invalid \<open>Date\<close> in the code, which the instants of the model
  do not represent.
\<close>

type_synonym instant = int

text \<open>
  \<open>Date.prototype.toISOString\<close>: the day of the proleptic Gregorian calendar and the
  time of day in UTC. The year has four digits from 0000 to 9999, and a sign and six
  digits otherwise.
\<close>

definition decimalDigit :: "int \<Rightarrow> char" where
  "decimalDigit n = (''0123456789'' ! nat (n mod 10))"

definition pad2 :: "int \<Rightarrow> string" where
  "pad2 n = [decimalDigit (n div 10), decimalDigit n]"

definition pad3 :: "int \<Rightarrow> string" where
  "pad3 n = decimalDigit (n div 100) # pad2 n"

definition pad4 :: "int \<Rightarrow> string" where
  "pad4 n = decimalDigit (n div 1000) # pad3 n"

definition pad6 :: "int \<Rightarrow> string" where
  "pad6 n = decimalDigit (n div 100000) # decimalDigit (n div 10000) # pad4 n"

text \<open>Year, month and day of the day number \<open>days\<close>, day 0 being 1970-01-01.\<close>

definition civilFromDays :: "int \<Rightarrow> int \<times> int \<times> int" where
  "civilFromDays days =
     (let z = days + 719468;
          era = z div 146097;
          doe = z mod 146097;
          yoe = (doe - doe div 1460 + doe div 36524 - doe div 146096) div 365;
          doy = doe - (365 * yoe + yoe div 4 - yoe div 100);
          mp = (5 * doy + 2) div 153;
          d = doy - (153 * mp + 2) div 5 + 1;
          m = (if mp < 10 then mp + 3 else mp - 9);
          y = yoe + era * 400 + (if m \<le> 2 then 1 else 0)
      in (y, m, d))"

definition toISOString :: "instant \<Rightarrow> string" where
  "toISOString t =
     (let ms = t mod 86400000 in
      case civilFromDays (t div 86400000) of (y, m, d) \<Rightarrow>
        (if 0 \<le> y \<and> y \<le> 9999 then pad4 y
         else (if y < 0 then ''-'' else ''+'') @ pad6 \<bar>y\<bar>)
        @ ''-'' @ pad2 m @ ''-'' @ pad2 d
        @ ''T'' @ pad2 (ms div 3600000) @ '':'' @ pad2 (ms div 60000 mod 60)
        @ '':'' @ pad2 (ms div 1000 mod 60) @ ''.'' @ pad3 (ms mod 1000) @ ''Z'')"

definition BOB_ID :: string where
  "BOB_ID = ''bob''"


text \<open>
  The white space and line terminators of ECMAScript, which \<open>String.prototype.trim\<close>
  removes: U+0009 to U+000D, U+0020, U+00A0, U+1680, U+2000 to U+200A, U+2028, U+2029,
  U+202F, U+205F, U+3000 and U+FEFF, each as its UTF-8 bytes.
\<close>

definition whiteSpace :: "string list" where
  "whiteSpace =
     map (\<lambda>c. [c]) [CHR 0x09, CHR 0x0A, CHR 0x0B, CHR 0x0C, CHR 0x0D, CHR 0x20]
     @ [[CHR 0xC2, CHR 0xA0], [CHR 0xE1, CHR 0x9A, CHR 0x80]]
     @ map (\<lambda>c. [CHR 0xE2, CHR 0x80, c])
         [CHR 0x80, CHR 0x81, CHR 0x82, CHR 0x83, CHR 0x84, CHR 0x85, CHR 0x86, CHR 0x87,
          CHR 0x88, CHR 0x89, CHR 0x8A, CHR 0xA8, CHR 0xA9, CHR 0xAF]
     @ [[CHR 0xE2, CHR 0x81, CHR 0x9F], [CHR 0xE3, CHR 0x80, CHR 0x80],
        [CHR 0xEF, CHR 0xBB, CHR 0xBF]]"

text \<open>
  The number of bytes of the white space character a string starts with, and of the one
  it ends with; 0 when there is none.
\<close>

definition spaceAtStart :: "string \<Rightarrow> nat" where
  "spaceAtStart s =
     (case filter (\<lambda>w. take (length w) s = w) whiteSpace of [] \<Rightarrow> 0 | w # ws \<Rightarrow> length w)"

definition spaceAtEnd :: "string \<Rightarrow> nat" where
  "spaceAtEnd s =
     (case filter (\<lambda>w. drop (length s - length w) s = w) whiteSpace of
        [] \<Rightarrow> 0 | w # ws \<Rightarrow> length w)"

function trimStart :: "string \<Rightarrow> string" where
  "trimStart s = (if spaceAtStart s = 0 then s else trimStart (drop (spaceAtStart s) s))"
  by pat_completeness auto
termination
proof (relation "measure length")
  show "wf (measure length)" by simp
next
  fix s :: string
  assume a: "spaceAtStart s \<noteq> 0"
  have "s \<noteq> []"
  proof
    assume "s = []"
    then have "spaceAtStart s = 0" by (simp add: spaceAtStart_def whiteSpace_def)
    with a show False by simp
  qed
  with a show "(drop (spaceAtStart s) s, s) \<in> measure length" by simp
qed

function trimEnd :: "string \<Rightarrow> string" where
  "trimEnd s = (if spaceAtEnd s = 0 then s else trimEnd (take (length s - spaceAtEnd s) s))"
  by pat_completeness auto
termination
proof (relation "measure length")
  show "wf (measure length)" by simp
next
  fix s :: string
  assume a: "spaceAtEnd s \<noteq> 0"
  have "s \<noteq> []"
  proof
    assume "s = []"
    then have "spaceAtEnd s = 0" by (simp add: spaceAtEnd_def whiteSpace_def)
    with a show False by simp
  qed
  with a show "(take (length s - spaceAtEnd s) s, s) \<in> measure length" by simp
qed

declare trimStart.simps [simp del]

declare trimEnd.simps [simp del]

text \<open>\<open>String.prototype.trim\<close>.\<close>

definition trim :: "string \<Rightarrow> string" where
  "trim s = trimEnd (trimStart s)"

section \<open>The job store (scheduler/store.ts)\<close>

text \<open>
  \<open>JobPayload\<close> is the union of the three payload shapes; a field the JSON object does
  not carry is \<open>None\<close>. The \<open>payload\<close> column holds the JSON text of the object and
  \<open>safeParsePayload\<close> reads it back; the model keeps the object.
\<close>

record JobPayload =
  ptext :: "string option"
  prompt :: "string option"
  quotedMessage :: "string option"
  replyToMessageId :: "int option"
  script :: "string option"
  args :: "string list option"
  notify :: "bool option"
  urgent :: "bool option"

text \<open>
  One row of the table \<open>jobs\<close>, which is also the shape of a \<open>JobRecord\<close>.
  \<open>scheduleKind\<close> and \<open>jobType\<close> are TEXT columns, compared as strings by the code.
  \<open>nextRunAt\<close> and \<open>lastRunAt\<close> are the instants whose \<open>toISOString\<close> text the
  columns \<open>next_run_at\<close> and \<open>last_run_at\<close> hold.
\<close>

record JobRecord =
  jobId :: nat
  bobId :: string
  chatId :: int
  threadId :: "int option"
  scheduleKind :: string
  scheduleSpec :: string
  jobType :: string
  payload :: JobPayload
  enabled :: bool
  nextRunAt :: instant
  lastRunAt :: "instant option"
  contextMode :: "string option"

text \<open>
  The condition \<open>bob_id = ? AND enabled = 1 AND next_run_at <= ?\<close> with the parameter
  \<open>now.toISOString()\<close>, a comparison of texts.
\<close>

definition isDue :: "instant \<Rightarrow> JobRecord \<Rightarrow> bool" where
  "isDue now r = (bobId r = BOB_ID \<and> enabled r \<and> toISOString (nextRunAt r) \<le> toISOString now)"

text \<open>
  The statement \<open>selectDue\<close>: the rows that are due, by ascending text of
  \<open>next_run_at\<close>, at most \<open>LIMIT\<close> of them. Rows of equal \<open>next_run_at\<close> are taken in
  table order; SQLite does not specify their order.
\<close>

definition selectDue :: "instant \<Rightarrow> nat \<Rightarrow> JobRecord list \<Rightarrow> JobRecord list" where
  "selectDue now lmt rows =
     take lmt (sort_key (\<lambda>r. toISOString (nextRunAt r)) (filter (isDue now) rows))"

text \<open>
  \<open>claimDueJobs\<close>, one transaction: select the due rows, disable those of kind \<open>at\<close>
  by id, and return the selected rows as records (with \<open>enabled\<close> false for the ones just
  disabled and \<open>contextMode\<close> defaulted). The result is the returned list and the table.
\<close>

definition claimDueJobs ::
  "instant \<Rightarrow> nat \<Rightarrow> JobRecord list \<Rightarrow> JobRecord list \<times> JobRecord list" where
  "claimDueJobs now lmt tbl =
     (let rows = selectDue now lmt tbl in
      if rows = [] then ([], tbl)
      else
        let atIds = map jobId (filter (\<lambda>row. scheduleKind row = ''at'') rows);
            tbl' = (if atIds \<noteq> []
                    then map (\<lambda>r. if bobId r = BOB_ID \<and> jobId r \<in> set atIds
                                   then r\<lparr>enabled := False\<rparr> else r) tbl
                    else tbl);
            claimed = set atIds
        in (map (\<lambda>row. row\<lparr>enabled := (enabled row \<and> jobId row \<notin> claimed),
                               contextMode := Some (case contextMode row of
                                                      None \<Rightarrow> ''session'' | Some c \<Rightarrow> c)\<rparr>) rows,
            tbl'))"

text \<open>\<open>updateAfterRun\<close>: one UPDATE by id.\<close>

definition updateAfterRun ::
  "nat \<Rightarrow> instant \<Rightarrow> instant \<Rightarrow> bool \<Rightarrow> JobRecord list \<Rightarrow> JobRecord list" where
  "updateAfterRun i lastRun nextRun en tbl =
     map (\<lambda>r. if jobId r = i
               then r\<lparr>lastRunAt := Some lastRun, nextRunAt := nextRun, enabled := en\<rparr>
               else r) tbl"

text \<open>
  A series of \<open>claimDueJobs\<close> calls on one store with nothing between them; each call
  has its own \<open>now\<close> and \<open>limit\<close>. The result lists what each call returned.
\<close>

fun claimSeries :: "(instant \<times> nat) list \<Rightarrow> JobRecord list \<Rightarrow> JobRecord list list" where
  "claimSeries [] tbl = []"
| "claimSeries ((now, lmt) # cs) tbl =
     (case claimDueJobs now lmt tbl of (due, tbl') \<Rightarrow> due # claimSeries cs tbl')"


section \<open>Next run times (scheduler/schedule.ts)\<close>

datatype jobError =
    InvalidAt string
  | InvalidEvery string
  | InvalidCron string
  | NoNextRun
  | MissingText
  | MissingPrompt
  | MissingScript
  | PathEscape string
  | ScriptNotFound string
  | UnknownJobType string
  | TransportError
  | EngineError

text \<open>
  What the code takes from the platform and from the library \<open>cron-parser\<close>:
  \<open>dateParse s\<close> is the instant of \<open>new Date(s)\<close> (\<open>None\<close> for an invalid date), and
  \<open>cronNext spec from\<close> is \<open>parseExpression(spec, {currentDate: from}).next()\<close>
  (\<open>None\<close> when the library throws).
\<close>

record Platform =
  dateParse :: "string \<Rightarrow> instant option"
  cronNext :: "string \<Rightarrow> instant \<Rightarrow> instant option"

definition isDigit :: "char \<Rightarrow> bool" where
  "isDigit c = (c \<in> set ''0123456789'')"

definition decimal :: "string \<Rightarrow> nat" where
  "decimal ds = foldl (\<lambda>n c. 10 * n + (of_char c - 48)) 0 ds"

text \<open>The unit of a duration, case-insensitive, in milliseconds.\<close>

definition unitMs :: "char \<Rightarrow> int option" where
  "unitMs u =
     (if u = CHR ''s'' \<or> u = CHR ''S'' then Some 1000
      else if u = CHR ''m'' \<or> u = CHR ''M'' then Some 60000
      else if u = CHR ''h'' \<or> u = CHR ''H'' then Some 3600000
      else if u = CHR ''d'' \<or> u = CHR ''D'' then Some 86400000
      else None)"

text \<open>
  \<open>parseEvery\<close>: the trimmed spec must match \<open>/^(\d+)(s|m|h|d)$/i\<close> with a positive
  number. The number is read exactly (\<open>parseInt\<close> is exact below \<open>2^53\<close>).
\<close>

definition parseEvery :: "string \<Rightarrow> jobError + int" where
  "parseEvery spec =
     (let t = trim spec in
      if t = [] then Inl (InvalidEvery spec)
      else
        let ds = butlast t; u = last t in
        if ds \<noteq> [] \<and> list_all isDigit ds \<and> unitMs u \<noteq> None
        then (let v = decimal ds in
              if v \<le> 0 then Inl (InvalidEvery spec)
              else (case unitMs u of
                      Some ms \<Rightarrow> Inr (int v * ms)
                    | None \<Rightarrow> Inl (InvalidEvery spec)))
        else Inl (InvalidEvery spec))"

definition parseAt :: "Platform \<Rightarrow> string \<Rightarrow> jobError + instant" where
  "parseAt P spec = (case dateParse P spec of None \<Rightarrow> Inl (InvalidAt spec) | Some d \<Rightarrow> Inr d)"

text \<open>
  \<open>computeNextRunAt\<close>: \<open>Inl\<close> is a thrown error, \<open>Inr None\<close> the \<open>null\<close> of the
  default branch.
\<close>

definition computeNextRunAt ::
  "Platform \<Rightarrow> string \<Rightarrow> string \<Rightarrow> instant \<Rightarrow> jobError + instant option" where
  "computeNextRunAt P knd spec from =
     (if knd = ''at'' then
        (case parseAt P spec of
           Inl e \<Rightarrow> Inl e
         | Inr d \<Rightarrow> if d \<le> from then Inr (Some from) else Inr (Some d))
      else if knd = ''every'' then
        (case parseEvery spec of
           Inl e \<Rightarrow> Inl e
         | Inr interval \<Rightarrow> Inr (Some (from + interval)))
      else if knd = ''cron'' then
        (case cronNext P spec from of
           None \<Rightarrow> Inl (InvalidCron spec)
         | Some t \<Rightarrow> Inr (Some t))
      else Inr None)"

text \<open>
  Modelled from the spec: the library \<open>cron-parser\<close> is not part of the repository. The
  spec gives its result as the first cron tick strictly after \<open>from\<close>; \<open>tick\<close> is the
  set of instants a cron expression fires at.
\<close>

definition firstTickAfter :: "(instant \<Rightarrow> bool) \<Rightarrow> instant \<Rightarrow> instant \<Rightarrow> bool" where
  "firstTickAfter tick from n = (from < n \<and> tick n \<and> (\<forall>m. from < m \<and> m < n \<longrightarrow> \<not> tick m))"

text \<open>
  A sample platform: it reads one ISO date, and knows the cron expression that fires at
  every full minute.
\<close>

definition samplePlatform :: Platform where
  "samplePlatform =
     \<lparr>dateParse = (\<lambda>s. if s = ''1970-01-01T00:00:01.000Z'' then Some 1000 else None),
      cronNext = (\<lambda>spec from. if spec = ''* * * * *''
                               then Some ((from div 60000 + 1) * 60000) else None)\<rparr>"

section \<open>Do not disturb (dnd/index.ts)\<close>

record DndConfig =
  dndEnabled :: bool
  dndStart :: string
  dndEnd :: string

record DndStatus =
  active :: bool
  reason :: "string option"
  endsAt :: "instant option"

text \<open>
  What \<open>isDndActive\<close> reads: \<open>adhoc.until\<close> of the state file (\<open>None\<close> without an
  ad-hoc period), the current instant, and the results of \<open>isInTimeWindow\<close> and
  \<open>getNextWindowEnd\<close> for the configured window and time zone. Clearing an expired ad-hoc
  period writes the state file and does not change the status returned.
\<close>

record DndProbe =
  adhocUntil :: "instant option"
  probeNow :: instant
  inWindow :: bool
  windowEnd :: instant

definition isDndActive :: "DndConfig \<Rightarrow> DndProbe \<Rightarrow> DndStatus" where
  "isDndActive config p =
     (if (case adhocUntil p of None \<Rightarrow> False | Some u \<Rightarrow> u > probeNow p)
      then \<lparr>active = True, reason = Some ''adhoc'', endsAt = adhocUntil p\<rparr>
      else if \<not> dndEnabled config
      then \<lparr>active = False, reason = None, endsAt = None\<rparr>
      else if inWindow p
      then \<lparr>active = True, reason = Some ''scheduled'', endsAt = Some (windowEnd p)\<rparr>
      else \<lparr>active = False, reason = None, endsAt = None\<rparr>)"

section \<open>Job execution (scheduler/service.ts)\<close>

text \<open>The calls \<open>executeJob\<close> makes to the chat transport, the engine and the scripts.\<close>

datatype Action =
    SendMessage int string
  | AgentTurn int string
  | RunScript string "string list"

record SchedulerOptions =
  dnd :: "DndConfig option"

text \<open>
  The surroundings of one \<open>executeJob\<close> call: whether \<open>sendTelegramMessage\<close> and the
  engine turn (with its conversation log) throw, the checks on a script path, what a
  script exits with (exit code, stdout, stderr), and \<open>new Date()\<close> after the dispatch.
\<close>

record World =
  platform :: Platform
  dndProbe :: DndProbe
  sendThrows :: "int \<Rightarrow> string \<Rightarrow> bool"
  engineThrows :: "int \<Rightarrow> string \<Rightarrow> bool"
  escapesRoot :: "string \<Rightarrow> bool"
  scriptExists :: "string \<Rightarrow> bool"
  scriptRun :: "string \<Rightarrow> string list \<Rightarrow> int \<times> string \<times> string"
  clock :: instant

definition trySend :: "World \<Rightarrow> int \<Rightarrow> string \<Rightarrow> Action list \<times> jobError option" where
  "trySend w c t = ([SendMessage c t], if sendThrows w c t then Some TransportError else None)"

text \<open>The dispatch on \<open>jobType\<close>: the calls made, and the error thrown if any.\<close>

definition dispatchJob :: "World \<Rightarrow> JobRecord \<Rightarrow> Action list \<times> jobError option" where
  "dispatchJob w job =
     (if jobType job = ''send_message'' then
        (let t = (case ptext (payload job) of None \<Rightarrow> '''' | Some x \<Rightarrow> x) in
         if trim t = [] then ([], Some MissingText)
         else trySend w (chatId job) t)
      else if jobType job = ''agent_turn'' then
        (let rawPrompt = (case prompt (payload job) of None \<Rightarrow> '''' | Some x \<Rightarrow> x) in
         if trim rawPrompt = [] then ([], Some MissingPrompt)
         else
           let framed = ''[SCHEDULED REMINDER] You previously scheduled this reminder for the user. Deliver it naturally:''
                        @ [CHR 0x0A, CHR 0x0A] @ rawPrompt;
               full = (case quotedMessage (payload job) of
                         None \<Rightarrow> framed
                       | Some q \<Rightarrow> if q = [] then framed
                                   else framed @ [CHR 0x0A, CHR 0x0A] @ ''[ORIGINAL USER REQUEST]''
                                        @ [CHR 0x0A] @ ''> '' @ q)
           in ([AgentTurn (chatId job) full],
               if engineThrows w (chatId job) full then Some EngineError else None))
      else if jobType job = ''script'' then
        (case script (payload job) of
           None \<Rightarrow> ([], Some MissingScript)
         | Some path \<Rightarrow>
             if path = [] then ([], Some MissingScript)
             else if escapesRoot w path then ([], Some (PathEscape path))
             else if \<not> scriptExists w path then ([], Some (ScriptNotFound path))
             else
               let as = (case args (payload job) of None \<Rightarrow> [] | Some xs \<Rightarrow> xs);
                   wantsNotice = (notify (payload job) = Some True)
               in (case scriptRun w path as of (exitCode, out, err) \<Rightarrow>
                     if exitCode \<noteq> 0 then
                       (if wantsNotice
                        then (case trySend w (chatId job)
                                     (''Script failed: '' @ path @ [CHR 0x0A] @ take 500 err) of
                                (acts, e) \<Rightarrow> (RunScript path as # acts, e))
                        else ([RunScript path as], None))
                     else if wantsNotice \<and> trim out \<noteq> []
                     then (case trySend w (chatId job) (take 4000 out) of
                             (acts, e) \<Rightarrow> (RunScript path as # acts, e))
                     else ([RunScript path as], None)))
      else ([], Some (UnknownJobType (jobType job))))"

text \<open>
  The do-not-disturb gate at the head of \<open>executeJob\<close>: \<open>Some x\<close> when the job is
  deferred, \<open>x\<close> being \<open>dndStatus.endsAt\<close>.
\<close>

definition dndDefers :: "SchedulerOptions \<Rightarrow> World \<Rightarrow> JobRecord \<Rightarrow> instant option option" where
  "dndDefers opts w job =
     (let isUrgent = (urgent (payload job) = Some True) in
      case dnd opts of
        None \<Rightarrow> None
      | Some config \<Rightarrow>
          if \<not> isUrgent \<and> (jobType job = ''send_message'' \<or> jobType job = ''agent_turn'')
          then (let dndStatus = isDndActive config (dndProbe w) in
                if active dndStatus then Some (endsAt dndStatus) else None)
          else None)"

text \<open>
  \<open>executeJob\<close>: the calls made and the promise's outcome, \<open>Inl\<close> a rejection and
  \<open>Inr\<close> the next run (\<open>None\<close> for \<open>null\<close>).
\<close>

definition executeJob ::
  "SchedulerOptions \<Rightarrow> World \<Rightarrow> JobRecord \<Rightarrow> Action list \<times> (jobError + instant option)" where
  "executeJob opts w job =
     (case dndDefers opts w job of
        Some deferred \<Rightarrow> ([], Inr deferred)
      | None \<Rightarrow>
          (case dispatchJob w job of
             (acts, Some e) \<Rightarrow> (acts, Inl e)
           | (acts, None) \<Rightarrow>
               if scheduleKind job = ''at'' then (acts, Inr None)
               else (acts, computeNextRunAt (platform w) (scheduleKind job) (scheduleSpec job)
                             (clock w))))"

text \<open>
  The two callbacks of \<open>executeJob(job).then(...)\<close> in \<open>tick\<close>: a resolved run writes
  \<open>updateAfterRun\<close>, a rejected one is logged. (\<open>next_run_at\<close> is NOT NULL, so the
  fallback to \<open>now\<close> for a job without \<open>nextRunAt\<close> does not arise.)
\<close>

definition settleJob ::
  "instant \<Rightarrow> JobRecord \<Rightarrow> jobError + instant option \<Rightarrow> JobRecord list \<Rightarrow> JobRecord list" where
  "settleJob now job res tbl =
     (case res of
        Inr nextRun \<Rightarrow>
          updateAfterRun (jobId job) now
            (case nextRun of Some n \<Rightarrow> n | None \<Rightarrow> nextRunAt job)
            (nextRun \<noteq> None) tbl
      | Inl err \<Rightarrow> tbl)"

text \<open>The loop \<open>for (const job of due)\<close>; \<open>wld job\<close> is the world the job runs in.\<close>

fun runDue ::
  "SchedulerOptions \<Rightarrow> (JobRecord \<Rightarrow> World) \<Rightarrow> instant \<Rightarrow> JobRecord list \<Rightarrow> JobRecord list
   \<Rightarrow> Action list \<times> JobRecord list" where
  "runDue opts wld now [] tbl = ([], tbl)"
| "runDue opts wld now (job # jobs) tbl =
     (case executeJob opts (wld job) job of (acts, res) \<Rightarrow>
        (case runDue opts wld now jobs (settleJob now job res tbl) of (acts', tbl') \<Rightarrow>
           (acts @ acts', tbl')))"

text \<open>
  One pass of the loop \<open>for (;;)\<close> of \<open>tick\<close>: claim with limit 10, then run what was
  claimed. A tick is a run of passes that ends with the first empty claim, so every
  \<open>claimDueJobs\<close> call of the scheduler is the claim of some pass.
\<close>

record Round =
  roundNow :: instant
  roundWorld :: "JobRecord \<Rightarrow> World"

definition tickRound ::
  "SchedulerOptions \<Rightarrow> Round \<Rightarrow> JobRecord list \<Rightarrow> JobRecord list \<times> Action list \<times> JobRecord list" where
  "tickRound opts r tbl =
     (case claimDueJobs (roundNow r) 10 tbl of (due, tbl1) \<Rightarrow>
        (case runDue opts (roundWorld r) (roundNow r) due tbl1 of (acts, tbl2) \<Rightarrow>
           (due, acts, tbl2)))"

text \<open>
  No enabled row of this bob carries the id \<open>i\<close>: such a job is not selected.
\<close>

definition deadId :: "nat \<Rightarrow> JobRecord list \<Rightarrow> bool" where
  "deadId i tbl = (\<forall>r \<in> set tbl. bobId r = BOB_ID \<and> jobId r = i \<longrightarrow> \<not> enabled r)"

text \<open>Sample rows: an interval job and a one-shot job, both due from instant 1000 on.\<close>

definition pingPayload :: JobPayload where
  "pingPayload = \<lparr>ptext = Some ''ping'', prompt = None, quotedMessage = None,
     replyToMessageId = None, script = None, args = None, notify = None, urgent = None\<rparr>"

definition everyJob :: JobRecord where
  "everyJob = \<lparr>jobId = 1, bobId = ''bob'', chatId = 7, threadId = None,
     scheduleKind = ''every'', scheduleSpec = ''5m'', jobType = ''send_message'',
     payload = pingPayload, enabled = True, nextRunAt = 1000, lastRunAt = None,
     contextMode = Some ''session''\<rparr>"

definition atJob :: JobRecord where
  "atJob = \<lparr>jobId = 2, bobId = ''bob'', chatId = 7, threadId = None,
     scheduleKind = ''at'', scheduleSpec = ''1970-01-01T00:00:01.000Z'',
     jobType = ''send_message'', payload = pingPayload, enabled = True, nextRunAt = 1000,
     lastRunAt = None, contextMode = Some ''session''\<rparr>"

text \<open>
  The store with the counter of \<open>AUTOINCREMENT\<close>: a new row takes an id above every id
  the table holds or held. (In the code \<open>addJob\<close> throws a \<open>RangeError\<close> when the next
  run is an invalid \<open>Date\<close>, which the instants of the model do not represent.)
\<close>

record JobStore =
  jobs :: "JobRecord list"
  lastId :: nat

record AddInput =
  inChatId :: int
  inThreadId :: "int option"
  inScheduleKind :: string
  inScheduleSpec :: string
  inJobType :: string
  inPayload :: JobPayload
  inEnabled :: "bool option"
  inContextMode :: "string option"
  inNow :: instant

definition addJob :: "Platform \<Rightarrow> AddInput \<Rightarrow> JobStore \<Rightarrow> jobError + JobRecord \<times> JobStore" where
  "addJob P inp st =
     (case computeNextRunAt P (inScheduleKind inp) (inScheduleSpec inp) (inNow inp) of
        Inl e \<Rightarrow> Inl e
      | Inr None \<Rightarrow> Inl NoNextRun
      | Inr (Some nextRun) \<Rightarrow>
          let newId = fold max (map jobId (jobs st)) (lastId st) + 1;
              row = \<lparr>jobId = newId, bobId = BOB_ID, chatId = inChatId inp,
                     threadId = inThreadId inp, scheduleKind = inScheduleKind inp,
                     scheduleSpec = inScheduleSpec inp, jobType = inJobType inp,
                     payload = inPayload inp,
                     enabled = (case inEnabled inp of None \<Rightarrow> True | Some b \<Rightarrow> b),
                     nextRunAt = nextRun, lastRunAt = None,
                     contextMode = Some (case inContextMode inp of
                                           None \<Rightarrow> ''session'' | Some c \<Rightarrow> c)\<rparr>
          in Inr (row, \<lparr>jobs = jobs st @ [row], lastId = newId\<rparr>))"

definition removeJob :: "nat \<Rightarrow> JobStore \<Rightarrow> bool \<times> JobStore" where
  "removeJob i st =
     (\<exists>r \<in> set (jobs st). jobId r = i, st\<lparr>jobs := filter (\<lambda>r. jobId r \<noteq> i) (jobs st)\<rparr>)"

text \<open>
  What happens to a store over time: passes of the scheduler, and the \<open>addJob\<close> and
  \<open>removeJob\<close> calls of the command line. \<open>history\<close> lists what each pass claimed.
\<close>

datatype StoreEvent = Pass Round | Add Platform AddInput | Remove nat

fun history :: "SchedulerOptions \<Rightarrow> StoreEvent list \<Rightarrow> JobStore \<Rightarrow> JobRecord list list" where
  "history opts [] st = []"
| "history opts (Pass r # es) st =
     (case tickRound opts r (jobs st) of (due, acts, tbl) \<Rightarrow>
        due # history opts es (st\<lparr>jobs := tbl\<rparr>))"
| "history opts (Add P inp # es) st =
     (case addJob P inp st of
        Inl e \<Rightarrow> history opts es st
      | Inr (row, st') \<Rightarrow> history opts es st')"
| "history opts (Remove i # es) st = history opts es (snd (removeJob i st))"

text \<open>No enabled row at all carries the id \<open>i\<close>.\<close>

definition offId :: "nat \<Rightarrow> JobRecord list \<Rightarrow> bool" where
  "offId i tbl = (\<forall>r \<in> set tbl. jobId r = i \<longrightarrow> \<not> enabled r)"


text \<open>
  Sample surroundings: a scheduler with quiet hours configured; a world outside the
  quiet hours where every call succeeds; the same world inside the quiet hours, which
  end at instant 9000; and a world whose chat transport fails.
\<close>

definition quietOptions :: SchedulerOptions where
  "quietOptions = \<lparr>dnd = Some \<lparr>dndEnabled = True, dndStart = ''22:00'', dndEnd = ''08:00''\<rparr>\<rparr>"

definition calmWorld :: World where
  "calmWorld =
     \<lparr>platform = samplePlatform,
      dndProbe = \<lparr>adhocUntil = None, probeNow = 2000, inWindow = False, windowEnd = 9000\<rparr>,
      sendThrows = (\<lambda>c t. False), engineThrows = (\<lambda>c t. False),
      escapesRoot = (\<lambda>p. False), scriptExists = (\<lambda>p. True),
      scriptRun = (\<lambda>p as. (0, [], [])), clock = 2000\<rparr>"



definition pass2000 :: "World \<Rightarrow> Round" where
  "pass2000 w = \<lparr>roundNow = 2000, roundWorld = (\<lambda>job. w)\<rparr>"

section \<open>JSON values\<close>

text \<open>
  The JavaScript values a payload can be: \<open>null\<close>, booleans, finite numbers (kept as
  the text \<open>JSON.stringify\<close> prints for them), strings, arrays, plain objects (their
  own properties in enumeration order) and BigInt values, which \<open>JSON.stringify\<close>
  refuses. Strings are byte strings; a character beyond ASCII is its UTF-8 bytes.
\<close>

datatype jsValue =
    JNull
  | JBool bool
  | JNum string
  | JStr string
  | JArr "jsValue list"
  | JObj "(string \<times> jsValue) list"
  | JBigInt int

definition dquote :: char where
  "dquote = CHR 0x22"

definition backslash :: char where
  "backslash = CHR 0x5C"

definition hexDigit :: "nat \<Rightarrow> char" where
  "hexDigit n = (''0123456789abcdef'' ! (n mod 16))"

text \<open>The escapes of \<open>JSON.stringify\<close> inside a string.\<close>

definition escapeChar :: "char \<Rightarrow> string" where
  "escapeChar c =
     (if c = dquote then [backslash, dquote]
      else if c = backslash then [backslash, backslash]
      else if c = CHR 0x08 then [backslash, CHR ''b'']
      else if c = CHR 0x0C then [backslash, CHR ''f'']
      else if c = CHR 0x0A then [backslash, CHR ''n'']
      else if c = CHR 0x0D then [backslash, CHR ''r'']
      else if c = CHR 0x09 then [backslash, CHR ''t'']
      else if (of_char c :: nat) < 32
      then [backslash, CHR ''u'', CHR ''0'', CHR ''0'',
            hexDigit ((of_char c :: nat) div 16), hexDigit (of_char c)]
      else [c])"

definition quoteJSON :: "string \<Rightarrow> string" where
  "quoteJSON s = dquote # concat (map escapeChar s) @ [dquote]"

fun joinWith :: "string \<Rightarrow> string list \<Rightarrow> string" where
  "joinWith sep [] = []"
| "joinWith sep [x] = x"
| "joinWith sep (x # y # ys) = x @ sep @ joinWith sep (y # ys)"

text \<open>\<open>JSON.stringify\<close>; \<open>None\<close> when it throws.\<close>

fun stringify :: "jsValue \<Rightarrow> string option"
  and stringifyElems :: "jsValue list \<Rightarrow> string list option"
  and stringifyProps :: "(string \<times> jsValue) list \<Rightarrow> string list option" where
  "stringify JNull = Some ''null''"
| "stringify (JBool b) = Some (if b then ''true'' else ''false'')"
| "stringify (JNum n) = Some n"
| "stringify (JStr s) = Some (quoteJSON s)"
| "stringify (JArr xs) =
     (case stringifyElems xs of
        None \<Rightarrow> None
      | Some ts \<Rightarrow> Some (''['' @ joinWith '','' ts @ '']''))"
| "stringify (JObj kvs) =
     (case stringifyProps kvs of
        None \<Rightarrow> None
      | Some ts \<Rightarrow> Some (''{'' @ joinWith '','' ts @ ''}''))"
| "stringify (JBigInt n) = None"
| "stringifyElems [] = Some []"
| "stringifyElems (x # xs) =
     (case stringify x of
        None \<Rightarrow> None
      | Some t \<Rightarrow> (case stringifyElems xs of None \<Rightarrow> None | Some ts \<Rightarrow> Some (t # ts)))"
| "stringifyProps [] = Some []"
| "stringifyProps ((k, v) # kvs) =
     (case stringify v of
        None \<Rightarrow> None
      | Some t \<Rightarrow> (case stringifyProps kvs of
                     None \<Rightarrow> None
                   | Some ts \<Rightarrow> Some ((quoteJSON k @ '':'' @ t) # ts)))"

function showNat :: "nat \<Rightarrow> string" where
  "showNat n = (if n < 10 then [hexDigit n] else showNat (n div 10) @ [hexDigit (n mod 10)])"
  by pat_completeness auto
termination
  by (relation "measure id") auto

definition showInt :: "int \<Rightarrow> string" where
  "showInt i = (if i < 0 then CHR ''-'' # showNat (nat (- i)) else showNat (nat i))"

text \<open>
  \<open>String(v)\<close>: an array joins its elements with commas, \<open>null\<close> elements as empty
  strings.
\<close>

fun jsToString :: "jsValue \<Rightarrow> string"
  and elemStrings :: "jsValue list \<Rightarrow> string list" where
  "jsToString JNull = ''null''"
| "jsToString (JBool b) = (if b then ''true'' else ''false'')"
| "jsToString (JNum n) = n"
| "jsToString (JStr s) = s"
| "jsToString (JArr xs) = joinWith '','' (elemStrings xs)"
| "jsToString (JObj kvs) = ''[object Object]''"
| "jsToString (JBigInt n) = showInt n"
| "elemStrings [] = []"
| "elemStrings (x # xs) = (if x = JNull then [] else jsToString x) # elemStrings xs"

section \<open>The event store (events/store.ts)\<close>



text \<open>
  One row of the table \<open>events\<close>. \<open>payload\<close> is the JSON text of the column; the
  records the store returns carry it parsed.
\<close>

record EventRow =
  eventId :: nat
  evBobId :: string
  evChatId :: int
  evThreadId :: "int option"
  evKind :: string
  evPayload :: string
  createdAt :: instant
  claimedAt :: "instant option"
  processedAt :: "instant option"
  claimToken :: "string option"



definition DEFAULT_STALE_MS :: int where
  "DEFAULT_STALE_MS = 30 * 60000"

text \<open>
  The rows the statements \<open>countPending\<close> and \<open>claim\<close> select; \<open>claimed_at\<close> and the
  parameter \<open>staleBefore\<close> are compared as texts.
\<close>

definition isPending :: "instant \<Rightarrow> EventRow \<Rightarrow> bool" where
  "isPending staleBefore r =
     (evBobId r = BOB_ID \<and> processedAt r = None
      \<and> (case claimedAt r of
           None \<Rightarrow> True
         | Some c \<Rightarrow> toISOString c \<le> toISOString staleBefore))"

definition hasToken :: "string \<Rightarrow> EventRow \<Rightarrow> bool" where
  "hasToken token r = (evBobId r = BOB_ID \<and> claimToken r = Some token)"

text \<open>
  \<open>claimEvents\<close>, one transaction; \<open>token\<close> is the \<open>randomUUID()\<close> of the call. The
  result is the claimed events and the table. The rows are ordered by the text of
  \<open>created_at\<close>; rows of equal \<open>created_at\<close> are taken in table order, and SQLite does
  not specify their order.
\<close>

definition claimEvents ::
  "instant \<Rightarrow> int \<Rightarrow> nat \<Rightarrow> string \<Rightarrow> EventRow list \<Rightarrow> EventRow list \<times> EventRow list" where
  "claimEvents now staleAfterMs lmt token tbl =
     (let staleBefore = now - staleAfterMs;
          ids = map eventId (take lmt (sort_key (\<lambda>r. toISOString (createdAt r))
                                         (filter (isPending staleBefore) tbl)));
          tbl' = map (\<lambda>r. if eventId r \<in> set ids
                           then r\<lparr>claimedAt := Some now, claimToken := Some token\<rparr>
                           else r) tbl
      in (sort_key (\<lambda>r. toISOString (createdAt r)) (filter (hasToken token) tbl'), tbl'))"

text \<open>\<open>ackEvents\<close> and \<open>releaseClaim\<close>: the number of rows changed, and the table.\<close>

definition ackEvents :: "string \<Rightarrow> instant \<Rightarrow> EventRow list \<Rightarrow> nat \<times> EventRow list" where
  "ackEvents token timestamp tbl =
     (length (filter (hasToken token) tbl),
      map (\<lambda>r. if hasToken token r then r\<lparr>processedAt := Some timestamp\<rparr> else r) tbl)"

definition releaseClaim :: "string \<Rightarrow> EventRow list \<Rightarrow> nat \<times> EventRow list" where
  "releaseClaim token tbl =
     (length (filter (hasToken token) tbl),
      map (\<lambda>r. if hasToken token r then r\<lparr>claimedAt := None, claimToken := None\<rparr> else r) tbl)"

section \<open>The heartbeat dispatcher (events/dispatcher.ts)\<close>

record EventGroup =
  gChatId :: int
  gThreadId :: "int option"
  gEvents :: "EventRow list"

text \<open>
  \<open>groupEvents\<close>: a map from \<open>chatId:threadId\<close> to the group, in insertion order.
\<close>

fun addToGroups :: "EventRow \<Rightarrow> EventGroup list \<Rightarrow> EventGroup list" where
  "addToGroups e [] =
     [\<lparr>gChatId = evChatId e, gThreadId = evThreadId e, gEvents = [e]\<rparr>]"
| "addToGroups e (g # gs) =
     (if gChatId g = evChatId e \<and> gThreadId g = evThreadId e
      then g\<lparr>gEvents := gEvents g @ [e]\<rparr> # gs
      else g # addToGroups e gs)"

definition groupEvents :: "EventRow list \<Rightarrow> EventGroup list" where
  "groupEvents events = foldl (\<lambda>gs e. addToGroups e gs) [] events"

text \<open>
  The loop over the groups. \<open>dispatch g\<close> is the body for one group: \<open>Inl\<close> what it
  throws, \<open>Inr\<close> whether the reply was sent or reacted. The loop ends at the first throw.
\<close>

fun dispatchGroups ::
  "(EventGroup \<Rightarrow> string + bool) \<Rightarrow> EventGroup list \<Rightarrow> nat \<Rightarrow> string + nat" where
  "dispatchGroups dispatch [] sent = Inr sent"
| "dispatchGroups dispatch (g # gs) sent =
     (case dispatch g of
        Inl err \<Rightarrow> Inl err
      | Inr s \<Rightarrow> dispatchGroups dispatch gs (if s then sent + 1 else sent))"

datatype StoreCall = AckEvents string | ReleaseClaim string

text \<open>
  \<open>processEvents\<close>: the result (\<open>Inl\<close> the error rethrown, \<open>Inr\<close> the counts
  \<open>processed\<close> and \<open>sent\<close>), the calls made to \<open>ackEvents\<close> and \<open>releaseClaim\<close>, and
  the table. \<open>claimEvents\<close> is called with its defaults.
\<close>

definition processEvents ::
  "bool \<Rightarrow> (EventGroup \<Rightarrow> string + bool) \<Rightarrow> instant \<Rightarrow> string \<Rightarrow> instant \<Rightarrow> EventRow list
   \<Rightarrow> (string + nat \<times> nat) \<times> StoreCall list \<times> EventRow list" where
  "processEvents heartbeatEnabled dispatch now token ackTime tbl =
     (if \<not> heartbeatEnabled then (Inr (0, 0), [], tbl)
      else
        (case claimEvents now DEFAULT_STALE_MS 20 token tbl of (events, tbl1) \<Rightarrow>
           if events = [] then (Inr (0, 0), [], tbl1)
           else
             (case dispatchGroups dispatch (groupEvents events) 0 of
                Inr sent \<Rightarrow>
                  (case ackEvents token ackTime tbl1 of (n, tbl2) \<Rightarrow>
                     (Inr (length events, sent), [AckEvents token], tbl2))
              | Inl err \<Rightarrow>
                  (case releaseClaim token tbl1 of (n, tbl2) \<Rightarrow>
                     (Inl err, [ReleaseClaim token], tbl2)))))"

text \<open>
  Sample events: two pending events of different chats, and what \<open>JSON.parse\<close> gives
  on two texts, an object and a word that is no JSON.
\<close>

definition firstEvent :: EventRow where
  "firstEvent = \<lparr>eventId = 1, evBobId = ''bob'', evChatId = 7, evThreadId = None,
     evKind = ''task_failed'', evPayload = ''{}'', createdAt = 100, claimedAt = None,
     processedAt = None, claimToken = None\<rparr>"

definition secondEvent :: EventRow where
  "secondEvent = \<lparr>eventId = 2, evBobId = ''bob'', evChatId = 8, evThreadId = None,
     evKind = ''task_done'', evPayload = ''{}'', createdAt = 200, claimedAt = None,
     processedAt = None, claimToken = None\<rparr>"


text \<open>Sample dispatch bodies: one that replies for every group, one that throws for chat 8.\<close>

definition repliesAlways :: "EventGroup \<Rightarrow> string + bool" where
  "repliesAlways g = Inr True"

definition throwsForChat8 :: "EventGroup \<Rightarrow> string + bool" where
  "throwsForChat8 g = (if gChatId g = 8 then Inl ''engine failed'' else Inr True)"

section \<open>Double-precision numbers\<close>

text \<open>
  A finite JavaScript number is held as the rational number it denotes. \<open>roundDouble q\<close>
  is the number of IEEE 754 double precision nearest to \<open>q\<close>, a tie going to the even
  significand: 53 bits of significand, and steps of \<open>2^-1074\<close> below \<open>2^-1022\<close>.
  Overflow to \<open>Infinity\<close> is left out: the numbers rounded below lie between 0 and 1.
\<close>

function bitLength :: "int \<Rightarrow> nat" where
  "bitLength n = (if n \<le> 0 then 0 else Suc (bitLength (n div 2)))"
  by pat_completeness auto
termination
  by (relation "measure nat") auto

declare bitLength.simps [simp del]

definition pow2 :: "int \<Rightarrow> rat" where
  "pow2 e = (if 0 \<le> e then 2 ^ nat e else 1 / 2 ^ nat (- e))"

text \<open>The exponent \<open>e\<close> with \<open>2^e \<le> |q| < 2^(e+1)\<close>, for \<open>q\<close> other than 0.\<close>

definition binaryExponent :: "rat \<Rightarrow> int" where
  "binaryExponent q =
     (if 1 \<le> \<bar>q\<bar> then int (bitLength \<lfloor>\<bar>q\<bar>\<rfloor>) - 1
      else - int (bitLength (\<lceil>1 / \<bar>q\<bar>\<rceil> - 1)))"

definition roundTiesToEven :: "rat \<Rightarrow> int" where
  "roundTiesToEven x =
     (let f = \<lfloor>x\<rfloor>; d = x - of_int f
      in if d < 1 / 2 then f else if 1 / 2 < d then f + 1 else if even f then f else f + 1)"

definition roundDouble :: "rat \<Rightarrow> rat" where
  "roundDouble q =
     (if q = 0 then 0
      else let u = pow2 (max (binaryExponent q) (- 1022) - 52)
           in of_int (roundTiesToEven (q / u)) * u)"

text \<open>The operators \<open>/\<close> and \<open>+\<close> of JavaScript on finite numbers.\<close>

definition fdiv :: "rat \<Rightarrow> rat \<Rightarrow> rat" where
  "fdiv a b = roundDouble (a / b)"

definition fadd :: "rat \<Rightarrow> rat \<Rightarrow> rat" where
  "fadd a b = roundDouble (a + b)"

section \<open>Hybrid search (recall/search.ts)\<close>

text \<open>A hit; \<open>score\<close> is a JavaScript number.\<close>

record RecallHit =
  hitId :: nat
  source :: string
  title :: string
  breadcrumbs :: "string list"
  content :: string
  preview :: string
  lineStart :: nat
  lineEnd :: nat
  tokenCount :: nat
  score :: rat
  hitCreatedAt :: string

record SearchResult =
  resultHit :: RecallHit
  matchType :: string

text \<open>
  A value of the map \<open>scores\<close>; \<open>types\<close> is the set of the sources that contributed, in
  insertion order. The map is the list of its values in insertion order, keyed by the
  id of the hit.
\<close>

record ScoreEntry =
  entryHit :: RecallHit
  entryScore :: rat
  types :: "string list"




definition toResult :: "ScoreEntry \<Rightarrow> SearchResult" where
  "toResult entry =
     \<lparr>resultHit = (entryHit entry)\<lparr>score := entryScore entry\<rparr>,
      matchType = (if length (types entry) > 1 then ''hybrid''
                   else (case types entry of [] \<Rightarrow> [] | t # ts \<Rightarrow> t))\<rparr>"


text \<open>
  The fusion in the words of the specification: a chunk at zero-based rank \<open>i\<close> of a
  list contributes \<open>1 / (k + i + 1)\<close> with \<open>k = 60\<close>, the contributions are summed over
  the lists the chunk appears in, and the tag tells which lists contributed. The
  quotient and the sum are those of JavaScript numbers.
\<close>

fun rankOf :: "nat \<Rightarrow> RecallHit list \<Rightarrow> nat option" where
  "rankOf c [] = None"
| "rankOf c (h # hs) = (if hitId h = c then Some 0 else map_option Suc (rankOf c hs))"




text \<open>What the map holds for an id: its score, and its types.\<close>

definition entryId :: "ScoreEntry \<Rightarrow> nat" where
  "entryId e = hitId (entryHit e)"

definition scoreAt :: "nat \<Rightarrow> ScoreEntry list \<Rightarrow> rat option" where
  "scoreAt c es = map_option entryScore (find (\<lambda>e. entryId e = c) es)"

definition typesOf :: "nat \<Rightarrow> ScoreEntry list \<Rightarrow> string set" where
  "typesOf c es = \<Union> (set (map (\<lambda>e. set (types e)) (filter (\<lambda>e. entryId e = c) es)))"



section \<open>The streaming reply engine (telegram/reply-stream.ts)\<close>

datatype StreamMode = Edit | Send | Off



text \<open>
  The state of one \<open>streamAgentReply\<close> call: the record \<open>state\<close> and the variables of
  the closure.
\<close>

record StreamState =
  buffer :: string
  mode :: StreamMode
  sentMessageId :: "nat option"
  lastSentText :: string
  lastRenderedText :: string
  lastFlushAt :: instant
  scheduled :: bool
  didSend :: bool
  didReact :: bool
  didTriggerSend :: bool


























chapter \<open>Theorems\<close>

section \<open>Claiming due jobs\<close>

lemma selectDue_subset: "set (selectDue now lmt tbl) \<subseteq> {r \<in> set tbl. isDue now r}"
  unfolding selectDue_def using set_take_subset[of lmt] by fastforce

lemma claim_ids_enabled:
  assumes "r \<in> set (fst (claimDueJobs now lmt tbl))"
  shows "\<exists>r0 \<in> set tbl. jobId r0 = jobId r \<and> bobId r0 = BOB_ID \<and> enabled r0 \<and> isDue now r0
           \<and> scheduleKind r0 = scheduleKind r \<and> nextRunAt r0 = nextRunAt r"
  using assms selectDue_subset[of now lmt tbl]
  by (auto simp: claimDueJobs_def Let_def isDue_def split: if_splits)

lemma claim_dead_not_returned:
  assumes "deadId i tbl"
  shows "i \<notin> jobId ` set (fst (claimDueJobs now lmt tbl))"
proof
  assume "i \<in> jobId ` set (fst (claimDueJobs now lmt tbl))"
  then obtain r where r: "r \<in> set (fst (claimDueJobs now lmt tbl))" "jobId r = i"
    by blast
  from claim_ids_enabled[OF r(1)] obtain r0
    where "r0 \<in> set tbl" "jobId r0 = jobId r" "bobId r0 = BOB_ID" "enabled r0"
    by blast
  with assms r(2) show False
    unfolding deadId_def by blast
qed

lemma claim_dead_stays:
  "deadId i tbl \<Longrightarrow> deadId i (snd (claimDueJobs now lmt tbl))"
  unfolding deadId_def by (auto simp: claimDueJobs_def Let_def split: if_splits)

lemma claim_at_dead:
  assumes "r \<in> set (fst (claimDueJobs now lmt tbl))" "scheduleKind r = ''at''"
  shows "deadId (jobId r) (snd (claimDueJobs now lmt tbl))"
  using assms unfolding deadId_def
  by (auto simp: claimDueJobs_def Let_def filter_empty_conv split: if_splits)

lemma series_dead:
  "deadId i tbl \<Longrightarrow> due \<in> set (claimSeries cs tbl) \<Longrightarrow> i \<notin> jobId ` set due"
proof (induction cs arbitrary: tbl)
  case Nil then show ?case by simp
next
  case (Cons c cs)
  obtain now lmt where c: "c = (now, lmt)" by (cases c)
  obtain d t where ct: "claimDueJobs now lmt tbl = (d, t)" by (cases "claimDueJobs now lmt tbl")
  have dt: "deadId i t" using claim_dead_stays[OF Cons.prems(1), of now lmt] ct by simp
  from Cons.prems(2) have "due = d \<or> due \<in> set (claimSeries cs t)" by (simp add: c ct)
  then show ?case
  proof
    assume "due = d"
    then show ?thesis using claim_dead_not_returned[OF Cons.prems(1), of now lmt] ct by simp
  next
    assume "due \<in> set (claimSeries cs t)"
    then show ?thesis using Cons.IH[OF dt] by blast
  qed
qed

lemma series_length: "length (claimSeries cs tbl) = length cs"
  by (induction cs arbitrary: tbl) (auto split: prod.splits)

text \<open>
  What \<open>toISOString\<close> prints at the ends of the years 0000 to 9999, and the order of
  the texts there: the first instant of the year 10000 comes before the epoch, so a row
  with that \<open>next_run_at\<close> is due at any instant of the years 0000 to 9999.
\<close>

lemma toISOString_samples:
  "toISOString 0 = ''1970-01-01T00:00:00.000Z''
   \<and> toISOString 951827696789 = ''2000-02-29T12:34:56.789Z''
   \<and> toISOString (- 62167219200000) = ''0000-01-01T00:00:00.000Z''
   \<and> toISOString (- 62167219200001) = ''-000001-12-31T23:59:59.999Z''
   \<and> toISOString 253402300799999 = ''9999-12-31T23:59:59.999Z''
   \<and> toISOString 253402300800000 = ''+010000-01-01T00:00:00.000Z''
   \<and> toISOString 8640000000000000 = ''+275760-09-13T00:00:00.000Z''
   \<and> toISOString 253402300800000 < toISOString 0
   \<and> isDue 2000 (everyJob\<lparr>nextRunAt := 253402300800000\<rparr>)"
  by code_simp

text \<open>
  C1, as the claim states it, fails: two back-to-back \<open>claimDueJobs\<close> calls with the
  same \<open>now\<close> on a store holding one due interval job both return that job, because only
  rows of kind \<open>at\<close> are disabled by the claim.
\<close>

theorem claimDueJobs_overlap_counterexample:
  "claimSeries [(2000, 10), (2000, 10)] [everyJob] = [[everyJob], [everyJob]]
   \<and> set (map jobId (claimSeries [(2000, 10), (2000, 10)] [everyJob] ! 0))
       \<inter> set (map jobId (claimSeries [(2000, 10), (2000, 10)] [everyJob] ! 1)) \<noteq> {}"
proof -
  have s: "claimSeries [(2000, 10), (2000, 10)] [everyJob] = [[everyJob], [everyJob]]"
    by code_simp
  show ?thesis unfolding s by (simp add: everyJob_def)
qed

text \<open>
  C1 (amended): in any series of \<open>claimDueJobs\<close> calls on one store with nothing between
  them, whatever each call's \<open>now\<close> and \<open>limit\<close>, a job of kind \<open>at\<close> returned by one
  call is returned by no later call of the series.
\<close>

theorem claimSeries_at_disjoint:
  assumes "i < j" "j < length cs"
    and "r \<in> set (claimSeries cs tbl ! i)" "scheduleKind r = ''at''"
  shows "jobId r \<notin> jobId ` set (claimSeries cs tbl ! j)"
  using assms
proof (induction cs arbitrary: tbl i j)
  case Nil then show ?case by simp
next
  case (Cons c cs)
  obtain now lmt where c: "c = (now, lmt)" by (cases c)
  obtain d t where ct: "claimDueJobs now lmt tbl = (d, t)" by (cases "claimDueJobs now lmt tbl")
  obtain j' where j: "j = Suc j'" using Cons.prems(1) by (cases j) auto
  have jl: "j' < length cs" using Cons.prems(2) j by simp
  show ?case
  proof (cases i)
    case 0
    then have "r \<in> set d" using Cons.prems(3) c ct by simp
    then have "deadId (jobId r) t" using claim_at_dead[of r now lmt tbl] Cons.prems(4) ct by simp
    moreover have "claimSeries cs t ! j' \<in> set (claimSeries cs t)" using jl by (simp add: series_length)
    ultimately show ?thesis using series_dead j c ct by simp
  next
    case (Suc i')
    then show ?thesis using Cons.IH[of i' j' t] Cons.prems j jl c ct by simp
  qed
qed

theorem claimSeries_at_disjoint_witness:
  "(0::nat) < 1 \<and> (1::nat) < length [(2000::int, 10::nat), (2000, 10)]
   \<and> atJob\<lparr>enabled := False\<rparr> \<in> set (claimSeries [(2000, 10), (2000, 10)] [everyJob, atJob] ! 0)
   \<and> scheduleKind (atJob\<lparr>enabled := False\<rparr>) = ''at''
   \<and> jobId (atJob\<lparr>enabled := False\<rparr>)
       \<notin> jobId ` set (claimSeries [(2000, 10), (2000, 10)] [everyJob, atJob] ! 1)"
proof -
  have a: "atJob\<lparr>enabled := False\<rparr> \<in> set (claimSeries [(2000, 10), (2000, 10)] [everyJob, atJob] ! 0)"
    by code_simp
  have k: "scheduleKind (atJob\<lparr>enabled := False\<rparr>) = ''at''"
    by (simp add: atJob_def)
  have l: "(1::nat) < length [(2000::int, 10::nat), (2000, 10)]" by simp
  have c: "jobId (atJob\<lparr>enabled := False\<rparr>)
       \<notin> jobId ` set (claimSeries [(2000, 10), (2000, 10)] [everyJob, atJob] ! 1)"
    by (rule claimSeries_at_disjoint[OF zero_less_one l a k])
  show ?thesis
    using l a k c by blast
qed

section \<open>Next run times\<close>

lemma firstTickAfter_mono:
  assumes "firstTickAfter tick t1 n1" "firstTickAfter tick t2 n2" "t1 \<le> t2"
  shows "n1 \<le> n2"
proof (rule ccontr)
  assume "\<not> n1 \<le> n2"
  then have "n2 < n1" by simp
  moreover have "t1 < n2" using assms(2,3) unfolding firstTickAfter_def by simp
  moreover have "tick n2" using assms(2) unfolding firstTickAfter_def by simp
  ultimately show False using assms(1) unfolding firstTickAfter_def by blast
qed

text \<open>
  C9: \<open>computeNextRunAt\<close> is monotonic in \<open>from\<close>. For a kind and spec, whenever it
  returns a next run at both \<open>t1\<close> and \<open>t2\<close> with \<open>t1 \<le> t2\<close>, the next run from \<open>t1\<close>
  is not after the next run from \<open>t2\<close>; for kind \<open>at\<close> the result is the maximum of
  \<open>from\<close> and the instant of the spec. The cron library is taken as the spec gives it:
  its result is the first tick strictly after \<open>from\<close>.
\<close>

theorem computeNextRunAt_monotonic:
  assumes cr: "\<forall>t n. cronNext P spec t = Some n \<longrightarrow> firstTickAfter tick t n"
    and le: "t1 \<le> t2"
    and r1: "computeNextRunAt P knd spec t1 = Inr (Some n1)"
    and r2: "computeNextRunAt P knd spec t2 = Inr (Some n2)"
  shows "n1 \<le> n2 \<and> (knd = ''at'' \<longrightarrow> (\<exists>d. dateParse P spec = Some d \<and> n1 = max t1 d \<and> n2 = max t2 d))"
proof -
  consider (at) "knd = ''at''" | (every) "knd = ''every''" | (cron) "knd = ''cron''"
    | (other) "knd \<noteq> ''at''" "knd \<noteq> ''every''" "knd \<noteq> ''cron''"
    by blast
  then show ?thesis
  proof cases
    case at
    then obtain d where d: "dateParse P spec = Some d"
      using r1 by (auto simp: computeNextRunAt_def parseAt_def split: option.splits)
    have "n1 = max t1 d" using r1 at d
      by (auto simp: computeNextRunAt_def parseAt_def split: if_splits)
    moreover have "n2 = max t2 d" using r2 at d
      by (auto simp: computeNextRunAt_def parseAt_def split: if_splits)
    ultimately show ?thesis using le d at by auto
  next
    case every
    then obtain iv where iv: "parseEvery spec = Inr iv"
      using r1 by (auto simp: computeNextRunAt_def split: sum.splits)
    have "n1 = t1 + iv" "n2 = t2 + iv" using r1 r2 every iv
      by (auto simp: computeNextRunAt_def)
    then show ?thesis using le every by simp
  next
    case cron
    then have c: "cronNext P spec t1 = Some n1" "cronNext P spec t2 = Some n2"
      using r1 r2 by (auto simp: computeNextRunAt_def split: option.splits)
    have "firstTickAfter tick t1 n1" using c(1) cr by blast
    moreover have "firstTickAfter tick t2 n2" using c(2) cr by blast
    ultimately have "n1 \<le> n2" using firstTickAfter_mono le by blast
    then show ?thesis using \<open>knd = ''cron''\<close> by simp
  next
    case other
    then show ?thesis using r1 by (simp add: computeNextRunAt_def)
  qed
qed

lemma minute_floor_le: "(t::int) div 60000 * 60000 \<le> t"
  using div_mult_mod_eq[of t 60000] pos_mod_sign[of 60000 t] by linarith

lemma minute_next_gt: "(t::int) < (t div 60000 + 1) * 60000"
proof -
  have "t mod 60000 < 60000" by simp
  moreover have "(t div 60000 + 1) * 60000 = t div 60000 * 60000 + 60000"
    by (simp add: distrib_right)
  ultimately show ?thesis using div_mult_mod_eq[of t 60000] by linarith
qed

lemma minute_multiple: "(m::int) mod 60000 = 0 \<Longrightarrow> \<exists>k. m = k * 60000"
proof -
  assume "m mod 60000 = 0"
  then have "60000 dvd m" by (simp add: mod_eq_0_iff_dvd)
  then obtain k where k: "m = 60000 * k" unfolding dvd_def ..
  then show ?thesis by (intro exI[of _ k]) simp
qed

lemma sample_cron_first_tick:
  "\<forall>t n. cronNext samplePlatform ''* * * * *'' t = Some n \<longrightarrow> firstTickAfter (\<lambda>i. i mod 60000 = 0) t n"
proof (intro allI impI)
  fix t n :: int
  assume "cronNext samplePlatform ''* * * * *'' t = Some n"
  then have n: "n = (t div 60000 + 1) * 60000" by (simp add: samplePlatform_def)
  have a: "t < n" unfolding n by (rule minute_next_gt)
  have b: "n mod 60000 = 0" unfolding n by simp
  have c: "\<not> (m mod 60000 = 0)" if "t < m \<and> m < n" for m
  proof
    assume "m mod 60000 = 0"
    from minute_multiple[OF this] obtain k where k: "m = k * 60000" ..
    from that have "k < t div 60000 + 1" unfolding n k by simp
    then have "k \<le> t div 60000" by simp
    then have "k * 60000 \<le> (t div 60000) * 60000" by simp
    also have "\<dots> \<le> t" by (rule minute_floor_le)
    finally have "m \<le> t" unfolding k .
    then show False using that by simp
  qed
  show "firstTickAfter (\<lambda>i. i mod 60000 = 0) t n"
    unfolding firstTickAfter_def
  proof (intro conjI allI impI)
    show "t < n" by (rule a)
    show "n mod 60000 = 0" by (rule b)
    show "\<not> m mod 60000 = 0" if "t < m \<and> m < n" for m using c[OF that] .
  qed
qed

lemma sample_no_cron:
  "\<forall>t n. cronNext samplePlatform ''1970-01-01T00:00:01.000Z'' t = Some n
     \<longrightarrow> firstTickAfter (\<lambda>i. i mod 60000 = 0) t n"
  by (simp add: samplePlatform_def)

theorem computeNextRunAt_monotonic_witness:
  "(61000::int) \<le> 125000
   \<and> computeNextRunAt samplePlatform ''cron'' ''* * * * *'' 61000 = Inr (Some 120000)
   \<and> computeNextRunAt samplePlatform ''cron'' ''* * * * *'' 125000 = Inr (Some 180000)
   \<and> (120000::int) \<le> 180000
   \<and> (500::int) \<le> 2000
   \<and> computeNextRunAt samplePlatform ''at'' ''1970-01-01T00:00:01.000Z'' 500 = Inr (Some 1000)
   \<and> computeNextRunAt samplePlatform ''at'' ''1970-01-01T00:00:01.000Z'' 2000 = Inr (Some 2000)
   \<and> (1000::int) \<le> 2000
   \<and> (\<exists>d. dateParse samplePlatform ''1970-01-01T00:00:01.000Z'' = Some d
          \<and> (1000::int) = max 500 d \<and> (2000::int) = max 2000 d)"
proof -
  have r1: "computeNextRunAt samplePlatform ''cron'' ''* * * * *'' 61000 = Inr (Some 120000)"
    by (simp add: computeNextRunAt_def samplePlatform_def)
  have r2: "computeNextRunAt samplePlatform ''cron'' ''* * * * *'' 125000 = Inr (Some 180000)"
    by (simp add: computeNextRunAt_def samplePlatform_def)
  have le: "(61000::int) \<le> 125000" by simp
  have m: "(120000::int) \<le> 180000"
    using computeNextRunAt_monotonic[OF sample_cron_first_tick le r1 r2] by (rule conjunct1)
  have a1: "computeNextRunAt samplePlatform ''at'' ''1970-01-01T00:00:01.000Z'' 500 = Inr (Some 1000)"
    by (simp add: computeNextRunAt_def parseAt_def samplePlatform_def)
  have a2: "computeNextRunAt samplePlatform ''at'' ''1970-01-01T00:00:01.000Z'' 2000 = Inr (Some 2000)"
    by (simp add: computeNextRunAt_def parseAt_def samplePlatform_def)
  have le2: "(500::int) \<le> 2000" by simp
  note at = computeNextRunAt_monotonic[OF sample_no_cron le2 a1 a2]
  have m2: "(1000::int) \<le> 2000" using at by (rule conjunct1)
  have e: "\<exists>d. dateParse samplePlatform ''1970-01-01T00:00:01.000Z'' = Some d
          \<and> (1000::int) = max 500 d \<and> (2000::int) = max 2000 d"
    using at by simp
  show ?thesis
    by (intro conjI) (rule le r1 r2 m le2 a1 a2 m2 e)+
qed

section \<open>Running claimed jobs\<close>

lemma claim_keeps_ids: "map jobId (snd (claimDueJobs now lmt tbl)) = map jobId tbl"
  by (auto simp: claimDueJobs_def Let_def)

lemma selectDue_distinct:
  assumes "distinct (map jobId tbl)"
  shows "distinct (map jobId (selectDue now lmt tbl))"
proof -
  let ?f = "filter (isDue now) tbl"
  let ?k = "\<lambda>r. toISOString (nextRunAt r)"
  have "distinct (map jobId ?f)" using assms by (rule distinct_map_filter)
  then have "distinct ?f" "inj_on jobId (set ?f)" by (simp_all add: distinct_map)
  then have "distinct (sort_key ?k ?f)" "inj_on jobId (set (sort_key ?k ?f))"
    by simp_all
  then have "distinct (map jobId (sort_key ?k ?f))" by (simp add: distinct_map)
  then show ?thesis unfolding selectDue_def take_map[symmetric] by (rule distinct_take)
qed

lemma claim_distinct:
  assumes "distinct (map jobId tbl)"
  shows "distinct (map jobId (fst (claimDueJobs now lmt tbl)))"
proof -
  have "map jobId (fst (claimDueJobs now lmt tbl)) = map jobId (selectDue now lmt tbl)"
    by (simp add: claimDueJobs_def Let_def)
  then show ?thesis using selectDue_distinct[OF assms] by simp
qed

lemma offId_claim: "offId i tbl \<Longrightarrow> offId i (snd (claimDueJobs now lmt tbl))"
  unfolding offId_def by (auto simp: claimDueJobs_def Let_def split: if_splits)

lemma offId_not_claimed:
  assumes "offId i tbl"
  shows "i \<notin> jobId ` set (fst (claimDueJobs now lmt tbl))"
proof
  assume "i \<in> jobId ` set (fst (claimDueJobs now lmt tbl))"
  then obtain r where r: "r \<in> set (fst (claimDueJobs now lmt tbl))" "jobId r = i"
    by blast
  from claim_ids_enabled[OF r(1)] obtain r0
    where "r0 \<in> set tbl" "jobId r0 = jobId r" "enabled r0"
    by blast
  with assms r(2) show False
    unfolding offId_def by blast
qed

lemma offId_settle_other:
  "jobId job \<noteq> i \<Longrightarrow> offId i tbl \<Longrightarrow> offId i (settleJob now job res tbl)"
  unfolding offId_def by (auto simp: settleJob_def updateAfterRun_def split: sum.splits)

lemma offId_settle_done: "offId (jobId job) (settleJob now job (Inr None) tbl)"
  unfolding offId_def by (auto simp: settleJob_def updateAfterRun_def)

lemma update_keeps_ids: "map jobId (updateAfterRun i l n e tbl) = map jobId tbl"
  by (induction tbl) (auto simp: updateAfterRun_def)

lemma settle_keeps_ids: "map jobId (settleJob now job res tbl) = map jobId tbl"
  by (cases res) (simp_all add: settleJob_def update_keeps_ids)

lemma runDue_snd_Cons:
  "snd (runDue opts wld now (j # js) tbl)
   = snd (runDue opts wld now js (settleJob now j (snd (executeJob opts (wld j) j)) tbl))"
  by (simp split: prod.splits)

lemma runDue_keeps_ids: "map jobId (snd (runDue opts wld now js tbl)) = map jobId tbl"
proof (induction js arbitrary: tbl)
  case Nil then show ?case by simp
next
  case (Cons j js)
  show ?case unfolding runDue_snd_Cons Cons.IH by (rule settle_keeps_ids)
qed

lemma offId_runDue_others:
  "i \<notin> jobId ` set js \<Longrightarrow> offId i tbl \<Longrightarrow> offId i (snd (runDue opts wld now js tbl))"
proof (induction js arbitrary: tbl)
  case Nil then show ?case by simp
next
  case (Cons j js)
  have "offId i (settleJob now j (snd (executeJob opts (wld j) j)) tbl)"
    using Cons.prems by (intro offId_settle_other) auto
  then have "offId i (snd (runDue opts wld now js (settleJob now j (snd (executeJob opts (wld j) j)) tbl)))"
    using Cons.IH Cons.prems(1) by simp
  then show ?case unfolding runDue_snd_Cons .
qed

lemma runDue_kills:
  assumes "distinct (map jobId js)" "job \<in> set js"
    and "snd (executeJob opts (wld job) job) = Inr None"
  shows "offId (jobId job) (snd (runDue opts wld now js tbl))"
  using assms(1,2)
proof (induction js arbitrary: tbl)
  case Nil then show ?case by simp
next
  case (Cons j js)
  let ?t = "settleJob now j (snd (executeJob opts (wld j) j)) tbl"
  have step: "snd (runDue opts wld now (j # js) tbl) = snd (runDue opts wld now js ?t)"
    by (rule runDue_snd_Cons)
  show ?case
  proof (cases "job = j")
    case True
    have "offId (jobId job) ?t" using assms(3) True offId_settle_done by simp
    moreover have "jobId job \<notin> jobId ` set js" using Cons.prems(1) True by auto
    ultimately show ?thesis unfolding step by (intro offId_runDue_others)
  next
    case False
    then have "job \<in> set js" using Cons.prems(2) by simp
    moreover have "distinct (map jobId js)" using Cons.prems(1) by simp
    ultimately show ?thesis unfolding step by (rule Cons.IH[rotated])
  qed
qed

lemma executeJob_at_done:
  assumes "dndDefers opts w job = None" "scheduleKind job = ''at''"
    and "snd (executeJob opts w job) = Inr x"
  shows "x = None"
  using assms by (auto simp: executeJob_def split: prod.splits option.splits)

lemma tickRound_fst: "fst (tickRound opts r tbl) = fst (claimDueJobs (roundNow r) 10 tbl)"
  by (simp add: tickRound_def split: prod.splits)

lemma tickRound_tbl:
  "snd (snd (tickRound opts r tbl))
   = snd (runDue opts (roundWorld r) (roundNow r) (fst (claimDueJobs (roundNow r) 10 tbl))
            (snd (claimDueJobs (roundNow r) 10 tbl)))"
  by (simp add: tickRound_def split: prod.splits)

lemma tickRound_keeps_ids: "map jobId (snd (snd (tickRound opts r tbl))) = map jobId tbl"
  by (simp add: tickRound_tbl runDue_keeps_ids claim_keeps_ids)

lemma offId_round:
  assumes "offId i tbl"
  shows "i \<notin> jobId ` set (fst (tickRound opts r tbl))"
    and "offId i (snd (snd (tickRound opts r tbl)))"
proof -
  show a: "i \<notin> jobId ` set (fst (tickRound opts r tbl))"
    unfolding tickRound_fst using assms by (rule offId_not_claimed)
  show "offId i (snd (snd (tickRound opts r tbl)))"
    unfolding tickRound_tbl using a offId_claim[OF assms]
    unfolding tickRound_fst by (intro offId_runDue_others)
qed

lemma fold_max_ge: "(k::nat) \<le> fold max xs k \<and> (\<forall>x \<in> set xs. x \<le> fold max xs k)"
proof (induction xs arbitrary: k)
  case Nil then show ?case by simp
next
  case (Cons x xs)
  have "max x k \<le> fold max xs (max x k)" "\<forall>y \<in> set xs. y \<le> fold max xs (max x k)"
    using Cons.IH[of "max x k"] by simp_all
  then show ?case by auto
qed

lemma history_off:
  assumes "offId i (jobs st)" "i \<le> lastId st" "\<forall>r \<in> set (jobs st). jobId r \<le> lastId st"
    and "claimed \<in> set (history opts es st)"
  shows "i \<notin> jobId ` set claimed"
  using assms
proof (induction es arbitrary: st)
  case Nil then show ?case by simp
next
  case (Cons e es)
  show ?case
  proof (cases e)
    case (Pass r)
    let ?st = "st\<lparr>jobs := snd (snd (tickRound opts r (jobs st)))\<rparr>"
    have h: "history opts (e # es) st = fst (tickRound opts r (jobs st)) # history opts es ?st"
      using Pass by (simp split: prod.splits)
    have o: "offId i (jobs ?st)" using offId_round(2)[OF Cons.prems(1)] by simp
    have b: "\<forall>r \<in> set (jobs ?st). jobId r \<le> lastId ?st"
    proof
      fix x assume "x \<in> set (jobs ?st)"
      then have "jobId x \<in> set (map jobId (jobs ?st))" by simp
      then have "jobId x \<in> set (map jobId (jobs st))" by (simp add: tickRound_keeps_ids)
      then show "jobId x \<le> lastId ?st" using Cons.prems(3) by auto
    qed
    from Cons.prems(4) h
    have "claimed = fst (tickRound opts r (jobs st)) \<or> claimed \<in> set (history opts es ?st)"
      by simp
    then show ?thesis
    proof
      assume "claimed = fst (tickRound opts r (jobs st))"
      then show ?thesis using offId_round(1)[OF Cons.prems(1)] by simp
    next
      assume c: "claimed \<in> set (history opts es ?st)"
      show ?thesis by (rule Cons.IH[OF o _ b c]) (use Cons.prems(2) in simp)
    qed
  next
    case (Add P inp)
    show ?thesis
    proof (cases "addJob P inp st")
      case (Inl err)
      then have "history opts (e # es) st = history opts es st" using Add by simp
      then show ?thesis using Cons.IH[OF Cons.prems(1,2,3)] Cons.prems(4) by simp
    next
      case (Inr res)
      obtain row st' where res: "res = (row, st')" by (cases res)
      have h: "history opts (e # es) st = history opts es st'" using Add Inr res by simp
      let ?n = "fold max (map jobId (jobs st)) (lastId st) + 1"
      have st': "jobs st' = jobs st @ [row]" "lastId st' = ?n" "jobId row = ?n"
        using Inr res
        by (auto simp: addJob_def Let_def split: sum.splits option.splits)
      have ge: "lastId st \<le> fold max (map jobId (jobs st)) (lastId st)"
        using fold_max_ge[of "lastId st" "map jobId (jobs st)"] by simp
      have o: "offId i (jobs st')" using Cons.prems(1,2) ge st' unfolding offId_def by auto
      have i: "i \<le> lastId st'" using Cons.prems(2) ge st' by simp
      have b: "\<forall>r \<in> set (jobs st'). jobId r \<le> lastId st'"
        using Cons.prems(3) ge st' by auto
      show ?thesis using Cons.IH[OF o i b] Cons.prems(4) h by simp
    qed
  next
    case (Remove k)
    let ?st = "snd (removeJob k st)"
    have h: "history opts (e # es) st = history opts es ?st" using Remove by simp
    have o: "offId i (jobs ?st)" using Cons.prems(1) unfolding offId_def removeJob_def by simp
    have i: "i \<le> lastId ?st" using Cons.prems(2) unfolding removeJob_def by simp
    have b: "\<forall>r \<in> set (jobs ?st). jobId r \<le> lastId ?st"
      using Cons.prems(3) unfolding removeJob_def by simp
    show ?thesis using Cons.IH[OF o i b] Cons.prems(4) h by simp
  qed
qed

text \<open>
  C2: a job of kind \<open>at\<close> that a pass of the scheduler claims and runs to the end
  (the do-not-disturb gate does not defer it and \<open>executeJob\<close> does not throw) is
  stored disabled when the pass ends, and no later \<open>claimDueJobs\<close> call of the
  scheduler returns it, whatever passes, \<open>addJob\<close> and \<open>removeJob\<close> calls follow and
  whatever their instants are.
\<close>

theorem at_job_done_once:
  assumes "distinct (map jobId tbl)" and "\<forall>row \<in> set tbl. jobId row \<le> hi"
    and "tickRound opts r tbl = (due, acts, tbl1)"
    and "job \<in> set due" and "scheduleKind job = ''at''"
    and "dndDefers opts (roundWorld r job) job = None"
    and "snd (executeJob opts (roundWorld r job) job) = Inr nextRun"
  shows "(\<forall>row \<in> set tbl1. jobId row = jobId job \<longrightarrow> \<not> enabled row)
       \<and> (\<forall>es. \<forall>claimed \<in> set (history opts es \<lparr>jobs = tbl1, lastId = hi\<rparr>).
            jobId job \<notin> jobId ` set claimed)"
proof -
  have due: "due = fst (claimDueJobs (roundNow r) 10 tbl)"
    using assms(3) tickRound_fst[of opts r tbl] by simp
  have tbl1: "tbl1 = snd (runDue opts (roundWorld r) (roundNow r) due
                            (snd (claimDueJobs (roundNow r) 10 tbl)))"
    using assms(3) tickRound_tbl[of opts r tbl] due by simp
  have d: "distinct (map jobId due)" unfolding due using assms(1) by (rule claim_distinct)
  have "nextRun = None" using assms(5,6,7) by (intro executeJob_at_done)
  then have ok: "snd (executeJob opts (roundWorld r job) job) = Inr None"
    using assms(7) by simp
  have off: "offId (jobId job) tbl1"
    unfolding tbl1 using d assms(4) ok by (rule runDue_kills)
  have ids: "map jobId tbl1 = map jobId tbl"
    using tickRound_keeps_ids[of opts r tbl] assms(3) by simp
  have jd: "job \<in> set (fst (claimDueJobs (roundNow r) 10 tbl))"
    using assms(4) due by simp
  from claim_ids_enabled[OF jd] obtain r0 where r0: "r0 \<in> set tbl" "jobId r0 = jobId job"
    by auto
  have "jobId r0 \<in> jobId ` set tbl" using r0(1) by (rule imageI)
  then have "jobId job \<in> set (map jobId tbl)" using r0(2) by simp
  then have hi: "jobId job \<le> hi" using assms(2) by auto
  have bound: "\<forall>row \<in> set tbl1. jobId row \<le> hi"
  proof
    fix x assume "x \<in> set tbl1"
    then have "jobId x \<in> set (map jobId tbl1)" by simp
    then show "jobId x \<le> hi" unfolding ids using assms(2) by auto
  qed
  have later: "jobId job \<notin> jobId ` set claimed"
    if "claimed \<in> set (history opts es \<lparr>jobs = tbl1, lastId = hi\<rparr>)" for es claimed
    by (rule history_off[OF _ _ _ that]) (use off hi bound in simp_all)
  show ?thesis using off later unfolding offId_def by blast
qed

theorem at_job_done_once_witness:
  "distinct (map jobId [everyJob, atJob])
   \<and> tickRound quietOptions (pass2000 calmWorld) [everyJob, atJob]
       = ([everyJob, atJob\<lparr>enabled := False\<rparr>],
          [SendMessage 7 ''ping'', SendMessage 7 ''ping''],
          [everyJob\<lparr>lastRunAt := Some 2000, nextRunAt := 302000\<rparr>,
           atJob\<lparr>enabled := False, lastRunAt := Some 2000\<rparr>])
   \<and> atJob\<lparr>enabled := False\<rparr> \<in> set [everyJob, atJob\<lparr>enabled := False\<rparr>]
   \<and> scheduleKind (atJob\<lparr>enabled := False\<rparr>) = ''at''
   \<and> dndDefers quietOptions calmWorld (atJob\<lparr>enabled := False\<rparr>) = None
   \<and> snd (executeJob quietOptions calmWorld (atJob\<lparr>enabled := False\<rparr>)) = Inr None
   \<and> \<not> enabled (atJob\<lparr>enabled := False, lastRunAt := Some 2000\<rparr>)
   \<and> history quietOptions [Pass \<lparr>roundNow = 400000, roundWorld = (\<lambda>job. calmWorld)\<rparr>]
         \<lparr>jobs = [everyJob\<lparr>lastRunAt := Some 2000, nextRunAt := 302000\<rparr>,
                  atJob\<lparr>enabled := False, lastRunAt := Some 2000\<rparr>], lastId = 2\<rparr>
       = [[everyJob\<lparr>lastRunAt := Some 2000, nextRunAt := 302000\<rparr>]]
   \<and> jobId (atJob\<lparr>enabled := False\<rparr>)
       \<notin> jobId ` set [everyJob\<lparr>lastRunAt := Some 2000, nextRunAt := 302000\<rparr>]"
proof -
  let ?job = "atJob\<lparr>enabled := False\<rparr>"
  let ?tbl1 = "[everyJob\<lparr>lastRunAt := Some 2000, nextRunAt := 302000\<rparr>,
                atJob\<lparr>enabled := False, lastRunAt := Some 2000\<rparr>]"
  let ?es = "[Pass \<lparr>roundNow = 400000, roundWorld = (\<lambda>job. calmWorld)\<rparr>]"
  have h1: "distinct (map jobId [everyJob, atJob])" by code_simp
  have h2: "\<forall>row \<in> set [everyJob, atJob]. jobId row \<le> 2" by code_simp
  have h3: "tickRound quietOptions (pass2000 calmWorld) [everyJob, atJob]
       = ([everyJob, ?job], [SendMessage 7 ''ping'', SendMessage 7 ''ping''], ?tbl1)"
    by code_simp
  have h4: "?job \<in> set [everyJob, ?job]" by simp
  have h5: "scheduleKind ?job = ''at''" by code_simp
  have h6: "dndDefers quietOptions (roundWorld (pass2000 calmWorld) ?job) ?job = None"
    by code_simp
  have h7: "snd (executeJob quietOptions (roundWorld (pass2000 calmWorld) ?job) ?job) = Inr None"
    by code_simp
  note th = at_job_done_once[OF h1 h2 h3 h4 h5 h6 h7]
  have w: "roundWorld (pass2000 calmWorld) ?job = calmWorld" by (simp add: pass2000_def)
  have c1: "\<not> enabled (atJob\<lparr>enabled := False, lastRunAt := Some 2000\<rparr>)"
    using th by simp
  have hist: "history quietOptions ?es \<lparr>jobs = ?tbl1, lastId = 2\<rparr>
       = [[everyJob\<lparr>lastRunAt := Some 2000, nextRunAt := 302000\<rparr>]]"
    by code_simp
  have "\<forall>claimed \<in> set (history quietOptions ?es \<lparr>jobs = ?tbl1, lastId = 2\<rparr>).
          jobId ?job \<notin> jobId ` set claimed"
    using th by (elim conjE allE)
  then have c2: "jobId ?job \<notin> jobId ` set [everyJob\<lparr>lastRunAt := Some 2000, nextRunAt := 302000\<rparr>]"
    unfolding hist by simp
  show ?thesis
    using h1 h3 h4 h5 h6[unfolded w] h7[unfolded w] c1 hist c2 by (intro conjI)
qed

section \<open>Deferral by do-not-disturb\<close>





section \<open>Failing runs\<close>






text \<open>
  The retry depends on the order of the text: the interval job, due since 1970, is
  returned at the last instant of the year 9999 and not at the next instant, which
  \<open>toISOString\<close> prints with a leading \<open>+\<close>.
\<close>

lemma later_instant_earlier_text:
  "fst (claimDueJobs 253402300799999 10 [everyJob]) = [everyJob]
   \<and> fst (claimDueJobs 253402300800000 10 [everyJob]) = []"
  by code_simp



section \<open>Acknowledging and releasing claims\<close>




section \<open>Heartbeat dispatch\<close>

lemma dispatchGroups_ok:
  "(\<forall>g \<in> set gs. \<exists>s. dispatch g = Inr s) \<Longrightarrow> \<exists>sent. dispatchGroups dispatch gs n = Inr sent"
proof (induction gs arbitrary: n)
  case Nil then show ?case by simp
next
  case (Cons g gs)
  then obtain s where "dispatch g = Inr s" by auto
  then show ?case using Cons by simp
qed

lemma dispatchGroups_throws:
  "(\<exists>g \<in> set gs. \<exists>err. dispatch g = Inl err) \<Longrightarrow> \<exists>err. dispatchGroups dispatch gs n = Inl err"
proof (induction gs arbitrary: n)
  case Nil then show ?case by simp
next
  case (Cons g gs)
  show ?case
  proof (cases "dispatch g")
    case (Inl err) then show ?thesis by simp
  next
    case (Inr s)
    then have "\<exists>g \<in> set gs. \<exists>err. dispatch g = Inl err" using Cons.prems by auto
    then show ?thesis using Cons.IH Inr by simp
  qed
qed

lemma claim_events_set:
  "set (fst (claimEvents now stale lmt token tbl))
   = {r \<in> set (snd (claimEvents now stale lmt token tbl)). hasToken token r}"
  by (simp add: claimEvents_def Let_def)

lemma claim_events_processed:
  "map processedAt (snd (claimEvents now stale lmt token tbl)) = map processedAt tbl"
  by (simp add: claimEvents_def Let_def)

lemma release_processed: "map processedAt (snd (releaseClaim token tbl)) = map processedAt tbl"
  by (simp add: releaseClaim_def)

lemma claim_events_fresh:
  assumes "distinct (map eventId tbl)" "\<forall>r \<in> set tbl. claimToken r \<noteq> Some token"
    and "e \<in> set (fst (claimEvents now stale lmt token tbl))"
  shows "processedAt e = None"
proof -
  let ?ids = "set (map eventId (take lmt (sort_key (\<lambda>r. toISOString (createdAt r))
                                            (filter (isPending (now - stale)) tbl))))"
  have inj: "inj_on eventId (set tbl)" using assms(1) by (simp add: distinct_map)
  from assms(3) obtain r where r: "r \<in> set tbl" "eventId r \<in> ?ids"
    "e = r\<lparr>claimedAt := Some now, claimToken := Some token\<rparr>"
    using assms(2) by (auto simp: claimEvents_def Let_def hasToken_def split: if_splits)
  from r(2) obtain p where p: "p \<in> set tbl" "isPending (now - stale) p" "eventId p = eventId r"
    using set_take_subset[of lmt "sort_key (\<lambda>r. toISOString (createdAt r))
                                    (filter (isPending (now - stale)) tbl)"]
    by auto
  have "p = r" using inj_onD[OF inj p(3) p(1) r(1)] .
  then have "processedAt r = None" using p(2) by (simp add: isPending_def)
  then show ?thesis using r(3) by simp
qed

text \<open>
  C6: a heartbeat dispatch that claims a non-empty set of events (with a claim token no
  row carries yet) ends in exactly one of two ways. If the body runs for every group
  without throwing, the one store call is \<open>ackEvents\<close> with the claim token, and every
  claimed event is stored with \<open>processedAt\<close> set. If the body throws for some group,
  the one store call is \<open>releaseClaim\<close> with the claim token, the error is rethrown,
  every claimed event is stored unclaimed and unprocessed, and no row's \<open>processedAt\<close>
  has changed.
\<close>

theorem processEvents_acks_or_releases:
  assumes "distinct (map eventId tbl)" and "\<forall>r \<in> set tbl. claimToken r \<noteq> Some token"
    and "claimEvents now DEFAULT_STALE_MS 20 token tbl = (events, tbl1)" and "events \<noteq> []"
    and "processEvents True dispatch now token ackTime tbl = (res, calls, tbl2)"
  shows "((\<forall>g \<in> set (groupEvents events). \<exists>s. dispatch g = Inr s) \<longrightarrow>
            calls = [AckEvents token] \<and> (\<exists>sent. res = Inr (length events, sent))
            \<and> (\<forall>e \<in> set events. e\<lparr>processedAt := Some ackTime\<rparr> \<in> set tbl2))
       \<and> ((\<exists>g \<in> set (groupEvents events). \<exists>err. dispatch g = Inl err) \<longrightarrow>
            calls = [ReleaseClaim token] \<and> (\<exists>err. res = Inl err)
            \<and> (\<forall>e \<in> set events.
                  processedAt e = None \<and> e\<lparr>claimedAt := None, claimToken := None\<rparr> \<in> set tbl2)
            \<and> map processedAt tbl2 = map processedAt tbl)"
proof (intro conjI impI)
  have ev: "set events = {r \<in> set tbl1. hasToken token r}"
    using claim_events_set[of now DEFAULT_STALE_MS 20 token tbl] assms(3) by simp
  {
    assume "\<forall>g \<in> set (groupEvents events). \<exists>s. dispatch g = Inr s"
    from dispatchGroups_ok[OF this, of 0] obtain sent
      where d: "dispatchGroups dispatch (groupEvents events) 0 = Inr sent" ..
    have pe: "(res, calls, tbl2)
          = (Inr (length events, sent), [AckEvents token], snd (ackEvents token ackTime tbl1))"
      using assms(3,4,5) d by (simp add: processEvents_def split: prod.splits)
    show "calls = [AckEvents token]" using pe by simp
    show "\<exists>sent. res = Inr (length events, sent)" using pe by simp
    have t2: "tbl2 = map (\<lambda>r. if hasToken token r then r\<lparr>processedAt := Some ackTime\<rparr> else r) tbl1"
      using pe by (simp add: ackEvents_def)
    show "\<forall>e \<in> set events. e\<lparr>processedAt := Some ackTime\<rparr> \<in> set tbl2"
    proof
      fix e assume "e \<in> set events"
      then have "e \<in> set tbl1" "hasToken token e" using ev by auto
      then show "e\<lparr>processedAt := Some ackTime\<rparr> \<in> set tbl2" unfolding t2 by force
    qed
  }
  {
    assume "\<exists>g \<in> set (groupEvents events). \<exists>err. dispatch g = Inl err"
    from dispatchGroups_throws[OF this, of 0] obtain err
      where d: "dispatchGroups dispatch (groupEvents events) 0 = Inl err" ..
    have pe: "(res, calls, tbl2)
          = (Inl err, [ReleaseClaim token], snd (releaseClaim token tbl1))"
      using assms(3,4,5) d by (simp add: processEvents_def split: prod.splits)
    show "calls = [ReleaseClaim token]" using pe by simp
    show "\<exists>err. res = Inl err" using pe by simp
    have t2: "tbl2 = map (\<lambda>r. if hasToken token r then r\<lparr>claimedAt := None, claimToken := None\<rparr> else r) tbl1"
      using pe by (simp add: releaseClaim_def)
    show "\<forall>e \<in> set events.
            processedAt e = None \<and> e\<lparr>claimedAt := None, claimToken := None\<rparr> \<in> set tbl2"
    proof
      fix e assume e: "e \<in> set events"
      then have "e \<in> set tbl1" "hasToken token e" using ev by auto
      then have "e\<lparr>claimedAt := None, claimToken := None\<rparr> \<in> set tbl2" unfolding t2 by force
      moreover have "processedAt e = None"
        using claim_events_fresh[OF assms(1,2), of e now DEFAULT_STALE_MS 20] e assms(3) by simp
      ultimately show "processedAt e = None \<and> e\<lparr>claimedAt := None, claimToken := None\<rparr> \<in> set tbl2"
        by simp
    qed
    have "map processedAt tbl2 = map processedAt tbl1"
      using pe release_processed[of token tbl1] by simp
    also have "\<dots> = map processedAt tbl"
      using claim_events_processed[of now DEFAULT_STALE_MS 20 token tbl] assms(3) by simp
    finally show "map processedAt tbl2 = map processedAt tbl" .
  }
qed

theorem processEvents_acks_or_releases_witness:
  "distinct (map eventId [firstEvent, secondEvent])
   \<and> claimEvents 5000 DEFAULT_STALE_MS 20 ''tok'' [firstEvent, secondEvent]
       = ([firstEvent\<lparr>claimedAt := Some 5000, claimToken := Some ''tok''\<rparr>,
           secondEvent\<lparr>claimedAt := Some 5000, claimToken := Some ''tok''\<rparr>],
          [firstEvent\<lparr>claimedAt := Some 5000, claimToken := Some ''tok''\<rparr>,
           secondEvent\<lparr>claimedAt := Some 5000, claimToken := Some ''tok''\<rparr>])
   \<and> processEvents True repliesAlways 5000 ''tok'' 6000 [firstEvent, secondEvent]
       = (Inr (2, 2), [AckEvents ''tok''],
          [firstEvent\<lparr>claimedAt := Some 5000, claimToken := Some ''tok'', processedAt := Some 6000\<rparr>,
           secondEvent\<lparr>claimedAt := Some 5000, claimToken := Some ''tok'', processedAt := Some 6000\<rparr>])
   \<and> secondEvent\<lparr>claimedAt := Some 5000, claimToken := Some ''tok'', processedAt := Some 6000\<rparr>
       \<in> set (snd (snd (processEvents True repliesAlways 5000 ''tok'' 6000 [firstEvent, secondEvent])))
   \<and> processEvents True throwsForChat8 5000 ''tok'' 6000 [firstEvent, secondEvent]
       = (Inl ''engine failed'', [ReleaseClaim ''tok''], [firstEvent, secondEvent])
   \<and> map processedAt (snd (snd (processEvents True throwsForChat8 5000 ''tok'' 6000
                                   [firstEvent, secondEvent])))
       = map processedAt [firstEvent, secondEvent]"
proof -
  let ?tbl = "[firstEvent, secondEvent]"
  let ?e1 = "firstEvent\<lparr>claimedAt := Some 5000, claimToken := Some ''tok''\<rparr>"
  let ?e2 = "secondEvent\<lparr>claimedAt := Some 5000, claimToken := Some ''tok''\<rparr>"
  let ?ok = "processEvents True repliesAlways 5000 ''tok'' 6000 ?tbl"
  let ?ko = "processEvents True throwsForChat8 5000 ''tok'' 6000 ?tbl"
  have h1: "distinct (map eventId ?tbl)" by code_simp
  have h2: "\<forall>r \<in> set ?tbl. claimToken r \<noteq> Some ''tok''" by code_simp
  have h3: "claimEvents 5000 DEFAULT_STALE_MS 20 ''tok'' ?tbl = ([?e1, ?e2], [?e1, ?e2])"
    by code_simp
  have h4: "[?e1, ?e2] \<noteq> []" by simp
  have g: "groupEvents [?e1, ?e2]
           = [\<lparr>gChatId = 7, gThreadId = None, gEvents = [?e1]\<rparr>,
              \<lparr>gChatId = 8, gThreadId = None, gEvents = [?e2]\<rparr>]"
    by code_simp
  have ok: "?ok = (Inr (2, 2), [AckEvents ''tok''],
              [?e1\<lparr>processedAt := Some 6000\<rparr>, ?e2\<lparr>processedAt := Some 6000\<rparr>])"
    by code_simp
  have ko: "?ko = (Inl ''engine failed'', [ReleaseClaim ''tok''], ?tbl)"
    by code_simp
  have all_ok: "\<forall>g \<in> set (groupEvents [?e1, ?e2]). \<exists>s. repliesAlways g = Inr s"
    unfolding repliesAlways_def by blast
  have some_ko: "\<exists>g \<in> set (groupEvents [?e1, ?e2]). \<exists>err. throwsForChat8 g = Inl err"
    unfolding g by (simp add: throwsForChat8_def)
  have p1: "?ok = (fst ?ok, fst (snd ?ok), snd (snd ?ok))" by simp
  have p2: "?ko = (fst ?ko, fst (snd ?ko), snd (snd ?ko))" by simp
  note t1 = processEvents_acks_or_releases[OF h1 h2 h3 h4 p1, THEN conjunct1, THEN mp, OF all_ok]
  note t2 = processEvents_acks_or_releases[OF h1 h2 h3 h4 p2, THEN conjunct2, THEN mp, OF some_ko]
  have c1: "?e2\<lparr>processedAt := Some 6000\<rparr> \<in> set (snd (snd ?ok))"
    using t1 by simp
  have c2: "map processedAt (snd (snd ?ko)) = map processedAt ?tbl"
    using t2 by simp
  show ?thesis using h1 h3 ok c1 ko c2 by (intro conjI)
qed

section \<open>Serialising event payloads\<close>






section \<open>Hybrid search\<close>

lemma floor_numeral_quotient:
  "\<lfloor>(numeral a :: rat) / numeral b\<rfloor> = numeral a div numeral b"
proof -
  have "\<lfloor>(of_int (numeral a) :: rat) / of_int (numeral b)\<rfloor> = numeral a div numeral b"
    by (rule floor_divide_of_int_eq)
  then show ?thesis by simp
qed

lemma ceiling_numeral_quotient:
  "\<lceil>(numeral a :: rat) / numeral b\<rceil> = - ((- numeral a) div numeral b)"
proof -
  have "\<lceil>(of_int (numeral a) :: rat) / of_int (numeral b)\<rceil> = - ((- numeral a) div numeral b)"
    by (rule ceiling_divide_eq_div)
  then show ?thesis by simp
qed

lemmas double_eval = fdiv_def fadd_def roundDouble_def binaryExponent_def pow2_def
  roundTiesToEven_def bitLength.simps Let_def floor_numeral_quotient ceiling_numeral_quotient

text \<open>The numbers \<open>1 / 61\<close>, \<open>1 / 62\<close> and \<open>1 / 61 + 1 / 62\<close> of JavaScript.\<close>

lemma fdiv_61: "fdiv 1 61 = 4725088133634619 / 288230376151711744"
  by (simp add: double_eval)

lemma fdiv_62: "fdiv 1 62 = 1162219258676257 / 72057594037927936"
  by (simp add: double_eval)

lemma fadd_61_62:
  "fadd (4725088133634619 / 288230376151711744) (1162219258676257 / 72057594037927936)
   = 146468205755307 / 4503599627370496"
  by (simp add: double_eval)

text \<open>
  The sum is rounded: it is not the rational \<open>1 / 61 + 1 / 62\<close>, and two sums that are
  equal as rationals, \<open>1 / 72 + 1 / 88\<close> and \<open>1 / 99 + 1 / 66\<close>, differ as numbers.
\<close>

lemma double_sum_is_rounded:
  "fadd (fdiv 1 61) (fdiv 1 62) = 146468205755307 / 4503599627370496
   \<and> fadd (fdiv 1 61) (fdiv 1 62) \<noteq> 1 / 61 + 1 / 62"
  by (simp add: fdiv_61 fdiv_62 fadd_61_62)

lemma rounding_separates_equal_sums:
  "(1 / 72 + 1 / 88 :: rat) = 1 / 99 + 1 / 66
   \<and> fadd (fdiv 1 72) (fdiv 1 88) < fadd (fdiv 1 99) (fdiv 1 66)"
  by (simp add: double_eval)

lemma entryId_score [simp]: "entryId (e\<lparr>entryScore := x\<rparr>) = entryId e"
  by (simp add: entryId_def)

lemma entryId_types [simp]: "entryId (e\<lparr>types := t\<rparr>) = entryId e"
  by (simp add: entryId_def)

lemma entryId_new [simp]: "entryId \<lparr>entryHit = hit, entryScore = x, types = t\<rparr> = hitId hit"
  by (simp add: entryId_def)


lemma scoreAt_Nil [simp]: "scoreAt c [] = None"
  by (simp add: scoreAt_def)

lemma scoreAt_Cons [simp]:
  "scoreAt c (e # es) = (if entryId e = c then Some (entryScore e) else scoreAt c es)"
  by (simp add: scoreAt_def)

lemma typesOf_Nil [simp]: "typesOf c [] = {}"
  by (simp add: typesOf_def)

lemma typesOf_Cons [simp]:
  "typesOf c (e # es) = (if entryId e = c then set (types e) else {}) \<union> typesOf c es"
  by (simp add: typesOf_def)








lemma rankOf_absent: "c \<notin> hitId ` set hits \<Longrightarrow> rankOf c hits = None"
  by (induction hits) auto








lemma toResult_id [simp]: "hitId (resultHit (toResult e)) = entryId e"
  by (simp add: toResult_def entryId_def)

lemma toResult_score [simp]: "score (resultHit (toResult e)) = entryScore e"
  by (simp add: toResult_def)






section \<open>The streaming reply engine\<close>

subsection \<open>A long reply on a plain transport\<close>















subsection \<open>What a flush that delivers leaves behind\<close>











end
